theory Spec2Isabelle
  imports
    Complex_Main
    "HOL-Library.AList"
    "HOL-Library.Char_ord"
    "HOL-Library.List_Lexorder"
    "HOL-Library.Multiset"
begin

section \<open>The icon preview generator (icon-preview.py)\<close>

text \<open>
  A shallow embedding of \<^verbatim>\<open>icon-preview.py\<close>. Python strings are \<open>string\<close>, compared
  lexicographically by character code (\<open>Char_ord\<close>, \<open>List_Lexorder\<close>) as Python compares
  \<^verbatim>\<open>str\<close>. A \<^verbatim>\<open>dict\<close> is an association list in insertion order with
  \<open>AList.update\<close> as item assignment: an existing key keeps its place, a new key goes to
  the end. An exception is the \<open>Inl\<close> of a sum. The interpreter's libraries (\<^verbatim>\<open>os\<close>,
  \<^verbatim>\<open>jinja2\<close>, the file system) are parameters of the model, collected in the
  record \<open>sys\<close>; the path functions are those of \<^verbatim>\<open>posixpath\<close>, since the
  \<^verbatim>\<open>os.EX_*\<close> constants the program uses exist on POSIX only.
\<close>

subsection \<open>Exceptions and built-in operations\<close>

datatype error =
    IndexError
  | KeyError
  | ValueError
  | OSError string
  | TemplateError string

text \<open>\<^verbatim>\<open>xs[i]\<close> for an index \<open>i \<ge> 0\<close>.\<close>

definition list_getitem :: "'a list \<Rightarrow> nat \<Rightarrow> error + 'a" where
  "list_getitem xs i = (if i < length xs then Inr (xs ! i) else Inl IndexError)"

text \<open>\<^verbatim>\<open>xs.index(x)\<close>: the first position of \<open>x\<close>, ValueError when there is none.\<close>

fun list_index :: "'a list \<Rightarrow> 'a \<Rightarrow> error + nat" where
  "list_index [] x = Inl ValueError"
| "list_index (y # ys) x =
     (if y = x then Inr 0
      else (case list_index ys x of Inl e \<Rightarrow> Inl e | Inr i \<Rightarrow> Inr (Suc i)))"

text \<open>\<^verbatim>\<open>d.get(k, default)\<close>, \<^verbatim>\<open>d[k]\<close>, \<^verbatim>\<open>k in d\<close> and \<^verbatim>\<open>d.values()\<close>.\<close>

definition dict_get :: "('k \<times> 'v) list \<Rightarrow> 'k \<Rightarrow> 'v \<Rightarrow> 'v" where
  "dict_get d k dflt = (case map_of d k of None \<Rightarrow> dflt | Some v \<Rightarrow> v)"

definition dict_getitem :: "('k \<times> 'v) list \<Rightarrow> 'k \<Rightarrow> error + 'v" where
  "dict_getitem d k = (case map_of d k of None \<Rightarrow> Inl KeyError | Some v \<Rightarrow> Inr v)"

definition dict_contains :: "('k \<times> 'v) list \<Rightarrow> 'k \<Rightarrow> bool" where
  "dict_contains d k = (k \<in> set (map fst d))"

definition dict_values :: "('k \<times> 'v) list \<Rightarrow> 'v list" where
  "dict_values d = map snd d"

text \<open>\<^verbatim>\<open>s.split(sep)\<close> for a one-character separator: one more piece than separators.\<close>

fun str_split :: "char \<Rightarrow> string \<Rightarrow> string list" where
  "str_split sep [] = [[]]"
| "str_split sep (c # cs) =
     (if c = sep then [] # str_split sep cs
      else (case str_split sep cs of
              [] \<Rightarrow> [[c]]
            | w # ws \<Rightarrow> (c # w) # ws))"

text \<open>\<^verbatim>\<open>s.rsplit(sep, 1)\<close>: split once, at the last separator.\<close>

definition str_rsplit1 :: "char \<Rightarrow> string \<Rightarrow> string list" where
  "str_rsplit1 sep s =
     (if sep \<in> set s
      then [rev (tl (dropWhile (\<lambda>c. c \<noteq> sep) (rev s))), rev (takeWhile (\<lambda>c. c \<noteq> sep) (rev s))]
      else [s])"

text \<open>\<^verbatim>\<open>s.lower()\<close> on ASCII letters, and \<^verbatim>\<open>s.endswith(suffix)\<close>.\<close>

definition chr_lower :: "char \<Rightarrow> char" where
  "chr_lower c =
     (case map_of (zip ''ABCDEFGHIJKLMNOPQRSTUVWXYZ'' ''abcdefghijklmnopqrstuvwxyz'') c of
        None \<Rightarrow> c
      | Some l \<Rightarrow> l)"

definition str_lower :: "string \<Rightarrow> string" where
  "str_lower s = map chr_lower s"

definition str_endswith :: "string \<Rightarrow> string \<Rightarrow> bool" where
  "str_endswith s suffix =
     (length suffix \<le> length s \<and> drop (length s - length suffix) s = suffix)"

subsection \<open>posixpath\<close>

definition os_path_join :: "string \<Rightarrow> string \<Rightarrow> string" where
  "os_path_join a b =
     (if b \<noteq> [] \<and> hd b = CHR ''/'' then b
      else if a = [] \<or> last a = CHR ''/'' then a @ b
      else a @ ''/'' @ b)"

definition os_path_basename :: "string \<Rightarrow> string" where
  "os_path_basename p = rev (takeWhile (\<lambda>c. c \<noteq> CHR ''/'') (rev p))"

definition str_rstrip :: "char \<Rightarrow> string \<Rightarrow> string" where
  "str_rstrip c s = rev (dropWhile (\<lambda>x. x = c) (rev s))"

definition os_path_dirname :: "string \<Rightarrow> string" where
  "os_path_dirname p =
     (let head = rev (dropWhile (\<lambda>c. c \<noteq> CHR ''/'') (rev p))
      in if head \<noteq> [] \<and> head \<noteq> replicate (length head) (CHR ''/'')
         then str_rstrip (CHR ''/'') head else head)"

subsection \<open>Constants\<close>

definition DEFAULT_ELEMENTS_PER_ROW :: int where
  "DEFAULT_ELEMENTS_PER_ROW = 3"

definition ICON_GROUP_ORDER :: "string list" where
  "ICON_GROUP_ORDER = [''small'', ''medium'', ''large'', ''cover'', ''notification'']"

definition ICON_GROUP_MARKS :: "(string \<times> string) list" where
  "ICON_GROUP_MARKS =
     [(''l'', ''large''),
      (''s'', ''small''),
      (''m'', ''medium''),
      (''cover'', ''cover''),
      (''lock'', ''notification'')]"

record IconDetails =
  name :: string
  group :: string
  relpath :: string

definition EX_OK :: int where "EX_OK = 0"
definition EX_DATAERR :: int where "EX_DATAERR = 65"

subsection \<open>split\_by\<close>

text \<open>
  \<^verbatim>\<open>list(itertools.islice(items, length))\<close> takes the next \<open>length\<close> elements of the
  iterator and leaves the rest; the loop yields pieces until one is empty. The model
  returns the list of everything the generator yields. \<^verbatim>\<open>islice\<close> accepts a stop
  between 0 and \<^verbatim>\<open>sys.maxsize\<close> and raises ValueError for any other, which the
  consumer sees at the first \<^verbatim>\<open>next\<close>. \<^verbatim>\<open>sys.maxsize\<close> is a constant of the platform
  (\<open>2\<^sup>6\<^sup>3 - 1\<close> on a 64-bit build) and is the parameter \<open>maxsize\<close> of the model.
\<close>

function split_by_loop :: "'a list \<Rightarrow> nat \<Rightarrow> 'a list list" where
  "split_by_loop items n =
     (let piece = take n items
      in if piece \<noteq> [] then piece # split_by_loop (drop n items) n else [])"
  by pat_completeness auto
termination
  by (relation "measure (\<lambda>(items, n). length items)") auto

declare split_by_loop.simps [simp del]

definition split_by :: "int \<Rightarrow> 'a list \<Rightarrow> int \<Rightarrow> error + 'a list list" where
  "split_by maxsize entries len =
     (if len < 0 \<or> maxsize < len then Inl ValueError
      else Inr (split_by_loop entries (nat len)))"

subsection \<open>cmp\_groups and icon\_group\_order\<close>

definition cmp_groups :: "string \<Rightarrow> string \<Rightarrow> error + int" where
  "cmp_groups a b =
     (case list_index ICON_GROUP_ORDER a of
        Inl e \<Rightarrow> Inl e
      | Inr a_i \<Rightarrow>
          (case list_index ICON_GROUP_ORDER b of
             Inl e \<Rightarrow> Inl e
           | Inr b_i \<Rightarrow> Inr (if a_i > b_i then 1 else if a_i = b_i then 0 else - 1)))"

text \<open>
  \<^verbatim>\<open>items.sort(key=cmp_to_key(cmp))\<close>: a stable comparison sort that asks only
  \<open>cmp y x < 0\<close> and raises what a comparison raises. It is modelled as insertion
  from the right, where an element goes behind the elements that are smaller and
  before the first one that is not. A list of fewer than two elements is returned
  without any comparison.
\<close>

fun insort_cmp :: "('a \<Rightarrow> 'a \<Rightarrow> error + int) \<Rightarrow> 'a \<Rightarrow> 'a list \<Rightarrow> error + 'a list" where
  "insort_cmp cmp x [] = Inr [x]"
| "insort_cmp cmp x (y # ys) =
     (case cmp y x of
        Inl e \<Rightarrow> Inl e
      | Inr c \<Rightarrow>
          if c < 0
          then (case insort_cmp cmp x ys of Inl e \<Rightarrow> Inl e | Inr zs \<Rightarrow> Inr (y # zs))
          else Inr (x # y # ys))"

fun sort_cmp :: "('a \<Rightarrow> 'a \<Rightarrow> error + int) \<Rightarrow> 'a list \<Rightarrow> error + 'a list" where
  "sort_cmp cmp [] = Inr []"
| "sort_cmp cmp (x # xs) =
     (case sort_cmp cmp xs of Inl e \<Rightarrow> Inl e | Inr ys \<Rightarrow> insort_cmp cmp x ys)"

definition icon_group_order :: "string list \<Rightarrow> error + string list" where
  "icon_group_order items = sort_cmp cmp_groups items"

subsection \<open>get\_groups\<close>

record flags =
  icons :: "string option"
  template :: "string option"
  result :: string
  small :: bool
  medium :: bool
  large :: bool
  cover :: bool

text \<open>\<^verbatim>\<open>getattr(flags, group, False)\<close> for the four names the comprehension runs over.\<close>

definition flag_of :: "flags \<Rightarrow> string \<Rightarrow> bool" where
  "flag_of fl g =
     (if g = ''small'' then small fl
      else if g = ''medium'' then medium fl
      else if g = ''large'' then large fl
      else if g = ''cover'' then cover fl
      else False)"

definition get_groups :: "flags \<Rightarrow> string list" where
  "get_groups fl =
     (let suggested = filter (flag_of fl) [''small'', ''medium'', ''large'', ''cover'']
      in if length suggested \<noteq> 0 then suggested else dict_values ICON_GROUP_MARKS)"

subsection \<open>The interpreter's environment\<close>

type_synonym icon_index = "(string \<times> IconDetails list) list"

text \<open>
  A loaded \<^verbatim>\<open>jinja2.Template\<close> is its \<^verbatim>\<open>render\<close> method, called with the
  keyword arguments \<^verbatim>\<open>icons\<close>, \<^verbatim>\<open>groups\<close> and \<^verbatim>\<open>row_size\<close>; it returns the text or raises.
\<close>

type_synonym jinja_template = "icon_index \<Rightarrow> string list \<Rightarrow> int \<Rightarrow> error + string"

text \<open>
  The operations of \<^verbatim>\<open>os\<close>, \<^verbatim>\<open>open\<close> and \<^verbatim>\<open>jinja2\<close> over a file system of
  type \<open>'fs\<close>. \<open>os_walk\<close> is the list of \<^verbatim>\<open>(root, dirs, files)\<close> triples that
  \<^verbatim>\<open>os.walk(path, topdown=True)\<close> produces (it skips what it cannot read). An operation
  that writes returns the new file system and the exception it raised, if any.
\<close>

record 'fs sys =
  os_walk :: "'fs \<Rightarrow> string \<Rightarrow> (string \<times> string list \<times> string list) list"
  os_path_relpath :: "string \<Rightarrow> string \<Rightarrow> string"
  os_path_exists :: "'fs \<Rightarrow> string \<Rightarrow> bool"
  os_path_abspath :: "string \<Rightarrow> string"
  os_path_expanduser :: "string \<Rightarrow> string"
  os_makedirs :: "string \<Rightarrow> 'fs \<Rightarrow> error option \<times> 'fs"
  open_wt :: "string \<Rightarrow> 'fs \<Rightarrow> error option \<times> 'fs"
  fp_write :: "string \<Rightarrow> string \<Rightarrow> 'fs \<Rightarrow> error option \<times> 'fs"
  jinja_get_template :: "'fs \<Rightarrow> string \<Rightarrow> string \<Rightarrow> error + jinja_template"

subsection \<open>Logging\<close>

datatype log_arg = ArgStr string | ArgExc error | ArgFlags flags

record log_record =
  levelno :: nat
  msg :: string
  args :: "log_arg list"
  exc_info :: "error option"

definition DEBUG :: nat where "DEBUG = 10"
definition INFO :: nat where "INFO = 20"
definition ERROR :: nat where "ERROR = 40"

text \<open>The logger's level is INFO: a record below it is dropped.\<close>

definition logger_log ::
  "nat \<Rightarrow> string \<Rightarrow> log_arg list \<Rightarrow> error option \<Rightarrow> log_record list \<Rightarrow> log_record list" where
  "logger_log lvl m as ei lg =
     (if INFO \<le> lvl then lg @ [\<lparr>levelno = lvl, msg = m, args = as, exc_info = ei\<rparr>] else lg)"

subsection \<open>fs\_path, fs\_path\_exists and the parsed arguments\<close>

definition fs_path :: "'fs sys \<Rightarrow> string \<Rightarrow> string" where
  "fs_path sy path = os_path_abspath sy (os_path_expanduser sy path)"

definition fs_path_exists :: "'fs sys \<Rightarrow> 'fs \<Rightarrow> string \<Rightarrow> string option" where
  "fs_path_exists sy fs path =
     (let p = fs_path sy path in if os_path_exists sy fs p then Some p else None)"

text \<open>
  The command line after \<^verbatim>\<open>argparse\<close> has split it: three positional strings and
  four \<^verbatim>\<open>store_true\<close> options. \<open>parse_args\<close> applies the \<^verbatim>\<open>type=\<close> converters that
  \<open>configure_parser\<close> declares.
\<close>

record argv =
  arg_icons :: string
  arg_template :: string
  arg_result :: string
  opt_small :: bool
  opt_medium :: bool
  opt_large :: bool
  opt_cover :: bool

definition parse_args :: "'fs sys \<Rightarrow> 'fs \<Rightarrow> argv \<Rightarrow> flags" where
  "parse_args sy fs av =
     \<lparr>icons = fs_path_exists sy fs (arg_icons av),
      template = fs_path_exists sy fs (arg_template av),
      result = fs_path sy (arg_result av),
      small = opt_small av,
      medium = opt_medium av,
      large = opt_large av,
      cover = opt_cover av\<rparr>"

subsection \<open>get\_icons\<close>

text \<open>
  The record built for one file name that ends in \<^verbatim>\<open>.svg\<close>. \<open>group_of_name\<close> is
  the expression \<^verbatim>\<open>ICON_GROUP_MARKS.get(icon_name.split('-')[1], 'unknown')\<close>. The
  keyword arguments are evaluated in order, so a failing \<^verbatim>\<open>[1]\<close> raises before
  \<^verbatim>\<open>relpath\<close> is called.
\<close>

definition group_of_name :: "string \<Rightarrow> error + string" where
  "group_of_name icon_name =
     (case list_getitem (str_split (CHR ''-'') icon_name) 1 of
        Inl e \<Rightarrow> Inl e
      | Inr mark \<Rightarrow> Inr (dict_get ICON_GROUP_MARKS mark ''unknown''))"

definition icon_details :: "'fs sys \<Rightarrow> string \<Rightarrow> string \<Rightarrow> error + IconDetails" where
  "icon_details sy fname result_dir =
     (case list_getitem (str_rsplit1 (CHR ''.'') (os_path_basename fname)) 0 of
        Inl e \<Rightarrow> Inl e
      | Inr icon_name \<Rightarrow>
          (case group_of_name icon_name of
             Inl e \<Rightarrow> Inl e
           | Inr g \<Rightarrow>
               Inr \<lparr>name = icon_name,
                    group = g,
                    relpath = os_path_relpath sy fname result_dir\<rparr>))"

text \<open>
  \<^verbatim>\<open>if details.group not in icons: icons[details.group] = []\<close> and then
  \<^verbatim>\<open>icons[details.group].append(details)\<close>.
\<close>

definition add_icon :: "IconDetails \<Rightarrow> icon_index \<Rightarrow> error + icon_index" where
  "add_icon details idx =
     (let idx1 = (if \<not> dict_contains idx (group details)
                  then AList.update (group details) [] idx else idx)
      in case dict_getitem idx1 (group details) of
           Inl e \<Rightarrow> Inl e
         | Inr recs \<Rightarrow> Inr (AList.update (group details) (recs @ [details]) idx1))"

text \<open>The body of the inner loop, for one \<^verbatim>\<open>filename\<close> of one \<^verbatim>\<open>root\<close>.\<close>

definition scan_file :: "'fs sys \<Rightarrow> string \<Rightarrow> string \<Rightarrow> string \<Rightarrow> icon_index \<Rightarrow> error + icon_index" where
  "scan_file sy result_dir root_dir filename idx =
     (let fname = os_path_join root_dir filename
      in if str_endswith (str_lower fname) ''.svg''
         then (case icon_details sy fname result_dir of
                 Inl e \<Rightarrow> Inl e
               | Inr details \<Rightarrow> add_icon details idx)
         else Inr idx)"

fun scan_files :: "'fs sys \<Rightarrow> string \<Rightarrow> string \<Rightarrow> string list \<Rightarrow> icon_index \<Rightarrow> error + icon_index" where
  "scan_files sy result_dir root_dir [] idx = Inr idx"
| "scan_files sy result_dir root_dir (filename # files) idx =
     (case scan_file sy result_dir root_dir filename idx of
        Inl e \<Rightarrow> Inl e
      | Inr idx' \<Rightarrow> scan_files sy result_dir root_dir files idx')"

fun scan_walk ::
  "'fs sys \<Rightarrow> string \<Rightarrow> (string \<times> string list \<times> string list) list \<Rightarrow> icon_index \<Rightarrow> error + icon_index" where
  "scan_walk sy result_dir [] idx = Inr idx"
| "scan_walk sy result_dir ((root_dir, dirs, files) # rest) idx =
     (case scan_files sy result_dir root_dir files idx of
        Inl e \<Rightarrow> Inl e
      | Inr idx' \<Rightarrow> scan_walk sy result_dir rest idx')"

text \<open>
  \<^verbatim>\<open>for _group in icons.keys(): icons[_group] = sorted(icons[_group], key=...)\<close>.
  \<^verbatim>\<open>sorted\<close> is a stable sort by the key, as \<open>sort_key\<close> is.
\<close>

fun sort_groups :: "string list \<Rightarrow> icon_index \<Rightarrow> error + icon_index" where
  "sort_groups [] idx = Inr idx"
| "sort_groups (g # gs) idx =
     (case dict_getitem idx g of
        Inl e \<Rightarrow> Inl e
      | Inr recs \<Rightarrow> sort_groups gs (AList.update g (sort_key name recs) idx))"

definition get_icons :: "'fs sys \<Rightarrow> 'fs \<Rightarrow> string \<Rightarrow> string \<Rightarrow> error + icon_index" where
  "get_icons sy fs icons_path result_dir =
     (case scan_walk sy result_dir (os_walk sy fs icons_path) [] of
        Inl e \<Rightarrow> Inl e
      | Inr idx \<Rightarrow> sort_groups (map fst idx) idx)"

subsection \<open>get\_template\<close>

text \<open>
  The two filters are registered on the jinja2 environment before the template is
  loaded; a template reaches them only while it renders, inside \<open>jinja_template\<close>.
\<close>

definition get_template :: "'fs sys \<Rightarrow> 'fs \<Rightarrow> string \<Rightarrow> string \<Rightarrow> error + jinja_template" where
  "get_template sy fs template_name template_path = jinja_get_template sy fs template_path template_name"

subsection \<open>main\<close>

text \<open>
  How the process ends: \<^verbatim>\<open>sys.exit(n)\<close>, or an exception that nothing catches and the
  interpreter reports with a traceback.
\<close>

datatype outcome = Exit int | Unhandled error

text \<open>The body of the \<^verbatim>\<open>try\<close>: the exception it raises, if any, and the file system it leaves.\<close>

definition write_result ::
  "'fs sys \<Rightarrow> jinja_template \<Rightarrow> icon_index \<Rightarrow> string list \<Rightarrow> flags \<Rightarrow> 'fs \<Rightarrow> error option \<times> 'fs" where
  "write_result sy tmpl idx groups fl fs =
     (case os_makedirs sy (os_path_dirname (result fl)) fs of
        (Some e, fs1) \<Rightarrow> (Some e, fs1)
      | (None, fs1) \<Rightarrow>
          (case open_wt sy (result fl) fs1 of
             (Some e, fs2) \<Rightarrow> (Some e, fs2)
           | (None, fs2) \<Rightarrow>
               (case tmpl idx groups DEFAULT_ELEMENTS_PER_ROW of
                  Inl e \<Rightarrow> (Some e, fs2)
                | Inr text \<Rightarrow> fp_write sy (result fl) text fs2)))"

definition main :: "'fs sys \<Rightarrow> argv \<Rightarrow> 'fs \<Rightarrow> outcome \<times> log_record list \<times> 'fs" where
  "main sy av fs =
     (let fl = parse_args sy fs av;
          lg = logger_log DEBUG ''%s'' [ArgFlags fl] None []
      in case icons fl of
           None \<Rightarrow> (Exit EX_DATAERR, logger_log ERROR ''Icons path not found'' [] None lg, fs)
         | Some icons_path \<Rightarrow>
             (case template fl of
                None \<Rightarrow> (Exit EX_DATAERR, logger_log ERROR ''Template not found'' [] None lg, fs)
              | Some template_path \<Rightarrow>
                  (case get_icons sy fs icons_path (os_path_dirname (result fl)) of
                     Inl e \<Rightarrow> (Unhandled e, lg, fs)
                   | Inr idx \<Rightarrow>
                       (let groups = get_groups fl
                        in case get_template sy fs (os_path_basename template_path)
                                  (os_path_dirname template_path) of
                             Inl e \<Rightarrow> (Unhandled e, lg, fs)
                           | Inr tmpl \<Rightarrow>
                               (case write_result sy tmpl idx groups fl fs of
                                  (Some exc, fs') \<Rightarrow>
                                    (Exit 1, logger_log ERROR ''Error: %s'' [ArgExc exc] (Some exc) lg, fs')
                                | (None, fs') \<Rightarrow>
                                    (Exit EX_OK,
                                     logger_log INFO ''Result file stored at: %s'' [ArgStr (result fl)] None lg,
                                     fs'))))))"

subsection \<open>An example environment\<close>

text \<open>
  A small environment to run the model in: the file system is the list of files with
  their contents, \<open>tree\<close> is what the walk of the icons directory finds, and \<open>loaded\<close>
  is what loading the template gives. Paths are taken as they are written.
\<close>

definition example_sys ::
  "(string \<times> string list \<times> string list) list \<Rightarrow> error + jinja_template \<Rightarrow> (string \<times> string) list sys" where
  "example_sys tree loaded =
     \<lparr>os_walk = (\<lambda>fs p. tree),
      os_path_relpath = (\<lambda>p start. p),
      os_path_exists = (\<lambda>fs p. p \<in> set (map fst fs) \<or> p \<in> set (map fst tree)),
      os_path_abspath = (\<lambda>p. p),
      os_path_expanduser = (\<lambda>p. p),
      os_makedirs = (\<lambda>p fs. (None, fs)),
      open_wt = (\<lambda>p fs. (None, AList.update p [] fs)),
      fp_write = (\<lambda>p text fs. (None, AList.update p text fs)),
      jinja_get_template = (\<lambda>fs dir nm. loaded)\<rparr>"

definition example_argv :: argv where
  "example_argv =
     \<lparr>arg_icons = ''/icons'',
      arg_template = ''/tpl/page.html'',
      arg_result = ''/out/index.html'',
      opt_small = False,
      opt_medium = False,
      opt_large = False,
      opt_cover = False\<rparr>"

definition example_tree :: "(string \<times> string list \<times> string list) list" where
  "example_tree =
     [(''/icons'', [''sub''], [''b-m-x.svg'', ''readme.txt'', ''a-s.SVG'']),
      (''/icons/sub'', [], [''a-m.svg'', ''b-m-x.svg'', ''c-zz.svg''])]"

definition example_fs :: "(string \<times> string) list" where
  "example_fs = [(''/tpl/page.html'', ''{{ groups }}'')]"

subsection \<open>The classifier in the words of its specification\<close>

text \<open>
  The token that follows the first \<open>-\<close> of a base name (it ends at the next \<open>-\<close> or
  at the end of the name), and the lookup table with its default.
\<close>

definition token_after_first_dash :: "string \<Rightarrow> string" where
  "token_after_first_dash base_name =
     takeWhile (\<lambda>c. c \<noteq> CHR ''-'') (tl (dropWhile (\<lambda>c. c \<noteq> CHR ''-'') base_name))"

definition lookup_table :: "string \<Rightarrow> string" where
  "lookup_table token =
     (if token = ''l'' then ''large''
      else if token = ''s'' then ''small''
      else if token = ''m'' then ''medium''
      else if token = ''cover'' then ''cover''
      else if token = ''lock'' then ''notification''
      else ''unknown'')"

subsection \<open>Auxiliary notions for the properties\<close>

text \<open>The position of the first \<open>x\<close> in \<open>xs\<close>, the value of \<^verbatim>\<open>xs.index(x)\<close> when there is one.\<close>

definition position :: "'a list \<Rightarrow> 'a \<Rightarrow> nat" where
  "position xs x = length (takeWhile (\<lambda>y. y \<noteq> x) xs)"

text \<open>
  The records of a scan in discovery order: the walk's triples in order, the files of
  each triple in order, one record for each name that ends in \<^verbatim>\<open>.svg\<close>.
\<close>

definition file_records :: "'fs sys \<Rightarrow> string \<Rightarrow> string \<Rightarrow> string \<Rightarrow> IconDetails list" where
  "file_records sy result_dir root_dir filename =
     (let fname = os_path_join root_dir filename
      in if str_endswith (str_lower fname) ''.svg''
         then (case icon_details sy fname result_dir of Inl e \<Rightarrow> [] | Inr details \<Rightarrow> [details])
         else [])"

definition discovered ::
  "'fs sys \<Rightarrow> string \<Rightarrow> (string \<times> string list \<times> string list) list \<Rightarrow> IconDetails list" where
  "discovered sy result_dir tree =
     concat (map (\<lambda>(root_dir, dirs, files). concat (map (file_records sy result_dir root_dir) files)) tree)"

text \<open>
  The loop invariant of the scan: the index holds, under each group that occurs among
  the records seen so far, exactly the records of that group in the order seen.
\<close>

definition index_of :: "IconDetails list \<Rightarrow> icon_index \<Rightarrow> bool" where
  "index_of ds idx \<longleftrightarrow>
     distinct (map fst idx) \<and>
     (\<forall>g. map_of idx g =
        (if g \<in> group ` set ds then Some (filter (\<lambda>r. group r = g) ds) else None))"

text \<open>What the scan of \<open>example_tree\<close> returns.\<close>

definition example_index :: icon_index where
  "example_index =
     [(''medium'',
         [\<lparr>name = ''a-m'', group = ''medium'', relpath = ''/icons/sub/a-m.svg''\<rparr>,
          \<lparr>name = ''b-m-x'', group = ''medium'', relpath = ''/icons/b-m-x.svg''\<rparr>,
          \<lparr>name = ''b-m-x'', group = ''medium'', relpath = ''/icons/sub/b-m-x.svg''\<rparr>]),
        (''small'', [\<lparr>name = ''a-s'', group = ''small'', relpath = ''/icons/a-s.SVG''\<rparr>]),
        (''unknown'', [\<lparr>name = ''c-zz'', group = ''unknown'', relpath = ''/icons/sub/c-zz.svg''\<rparr>])]"

definition example_medium :: "IconDetails list" where
  "example_medium =
     [\<lparr>name = ''a-m'', group = ''medium'', relpath = ''/icons/sub/a-m.svg''\<rparr>,
      \<lparr>name = ''b-m-x'', group = ''medium'', relpath = ''/icons/b-m-x.svg''\<rparr>,
      \<lparr>name = ''b-m-x'', group = ''medium'', relpath = ''/icons/sub/b-m-x.svg''\<rparr>]"

text \<open>A template that loads and then fails to render.\<close>

definition failing_template :: jinja_template where
  "failing_template = (\<lambda>idx groups row_size. Inl (TemplateError ''undefined''))"

section \<open>Properties\<close>

lemmas string_ops =
  os_path_join_def os_path_basename_def os_path_dirname_def str_rstrip_def
  str_endswith_def str_lower_def chr_lower_def str_rsplit1_def list_getitem_def

lemmas dict_ops = dict_get_def dict_getitem_def dict_contains_def dict_values_def

lemmas scan_defs = get_icons_def scan_file_def icon_details_def group_of_name_def add_icon_def

subsection \<open>Strings and paths\<close>

lemma str_split_no_sep: "sep \<notin> set s \<Longrightarrow> str_split sep s = [s]"
  by (induction s) auto

lemma str_split_unfold:
  "str_split sep s = takeWhile (\<lambda>c. c \<noteq> sep) s #
     (case dropWhile (\<lambda>c. c \<noteq> sep) s of [] \<Rightarrow> [] | _ # r \<Rightarrow> str_split sep r)"
  by (induction s) (auto split: list.splits)

lemma str_split_second:
  assumes "sep \<in> set s"
  shows "list_getitem (str_split sep s) 1 =
         Inr (takeWhile (\<lambda>c. c \<noteq> sep) (tl (dropWhile (\<lambda>c. c \<noteq> sep) s)))"
proof -
  from assms obtain r where d: "dropWhile (\<lambda>c. c \<noteq> sep) s = sep # r"
    by (metis (mono_tags, lifting) dropWhile_eq_Nil_conv hd_dropWhile list.collapse)
  have "str_split sep s = takeWhile (\<lambda>c. c \<noteq> sep) s # str_split sep r"
    using str_split_unfold [of sep s] d by simp
  moreover have "str_split sep r = takeWhile (\<lambda>c. c \<noteq> sep) r #
     (case dropWhile (\<lambda>c. c \<noteq> sep) r of [] \<Rightarrow> [] | _ # r' \<Rightarrow> str_split sep r')"
    by (rule str_split_unfold)
  ultimately show ?thesis
    using d by (simp add: list_getitem_def)
qed

lemma takeWhile_rev_sep:
  assumes "sep \<notin> set f"
  shows "takeWhile (\<lambda>c. c \<noteq> sep) (rev f @ sep # t) = rev f"
proof -
  have "takeWhile (\<lambda>c. c \<noteq> sep) (rev f @ sep # t) = rev f @ takeWhile (\<lambda>c. c \<noteq> sep) (sep # t)"
    by (rule takeWhile_append2) (use assms in auto)
  then show ?thesis by simp
qed

lemma dropWhile_rev_sep:
  assumes "sep \<notin> set f"
  shows "dropWhile (\<lambda>c. c \<noteq> sep) (rev f @ sep # t) = sep # t"
proof -
  have "dropWhile (\<lambda>c. c \<noteq> sep) (rev f @ sep # t) = dropWhile (\<lambda>c. c \<noteq> sep) (sep # t)"
    by (rule dropWhile_append2) (use assms in auto)
  then show ?thesis by simp
qed

lemma os_path_basename_join:
  assumes "CHR ''/'' \<notin> set f"
  shows "os_path_basename (os_path_join r f) = f"
proof -
  have nohd: "f = [] \<or> hd f \<noteq> CHR ''/''"
    using assms by (cases f) auto
  show ?thesis
  proof (cases "r = [] \<or> last r = CHR ''/''")
    case True
    with nohd have j: "os_path_join r f = r @ f"
      by (auto simp: os_path_join_def)
    have "takeWhile (\<lambda>c. c \<noteq> CHR ''/'') (rev f @ rev r) = rev f"
    proof (cases "r = []")
      case True
      then show ?thesis using assms by auto
    next
      case False
      with True have "last r = CHR ''/''" by simp
      with False have "hd (rev r) = CHR ''/''" and "rev r \<noteq> []"
        by (simp_all add: hd_rev)
      then obtain t where "rev r = CHR ''/'' # t"
        by (cases "rev r") auto
      then show ?thesis
        using takeWhile_rev_sep [OF assms, of t] by simp
    qed
    then show ?thesis
      by (simp add: j os_path_basename_def)
  next
    case False
    with nohd have j: "os_path_join r f = r @ ''/'' @ f"
      by (auto simp: os_path_join_def)
    show ?thesis
      using takeWhile_rev_sep [OF assms, of "rev r"]
      by (simp add: j os_path_basename_def)
  qed
qed

lemma str_rsplit1_ext:
  assumes "sep \<notin> set ext"
  shows "str_rsplit1 sep (b @ sep # ext) = [b, ext]"
  using takeWhile_rev_sep [OF assms, of "rev b"] dropWhile_rev_sep [OF assms, of "rev b"]
  by (simp add: str_rsplit1_def)

subsection \<open>The classifier\<close>

lemma dict_get_marks: "dict_get ICON_GROUP_MARKS mark ''unknown'' = lookup_table mark"
  by (simp add: dict_get_def ICON_GROUP_MARKS_def lookup_table_def)

lemma group_of_name_dash:
  "CHR ''-'' \<in> set icon_name \<Longrightarrow>
   group_of_name icon_name = Inr (lookup_table (token_after_first_dash icon_name))"
  using str_split_second [of "CHR ''-''" icon_name]
  by (simp add: group_of_name_def dict_get_marks token_after_first_dash_def)

lemma group_of_name_no_dash:
  "CHR ''-'' \<notin> set icon_name \<Longrightarrow> group_of_name icon_name = Inl IndexError"
  by (simp add: group_of_name_def str_split_no_sep list_getitem_def)

lemma group_of_name_token:
  assumes "CHR ''-'' \<notin> set prefix" and "CHR ''-'' \<notin> set token"
    and "rest = [] \<or> hd rest = CHR ''-''"
  shows "group_of_name (prefix @ ''-'' @ token @ rest) = Inr (lookup_table token)"
proof -
  have P: "\<And>x. x \<in> set prefix \<Longrightarrow> x \<noteq> CHR ''-''" and T: "\<And>x. x \<in> set token \<Longrightarrow> x \<noteq> CHR ''-''"
    using assms by auto
  have "dropWhile (\<lambda>c. c \<noteq> CHR ''-'') (prefix @ CHR ''-'' # token @ rest) = CHR ''-'' # token @ rest"
    using P by simp
  moreover have "takeWhile (\<lambda>c. c \<noteq> CHR ''-'') (token @ rest) = token"
    using T assms(3) by (cases rest) simp_all
  ultimately have "token_after_first_dash (prefix @ ''-'' @ token @ rest) = token"
    by (simp add: token_after_first_dash_def)
  then show ?thesis
    using group_of_name_dash [of "prefix @ ''-'' @ token @ rest"] by simp
qed

text \<open>
  C5. For every base name that contains at least one \<open>-\<close>, the classifier takes the
  token that follows the first \<open>-\<close> and maps it through the table
  l \<open>\<rightarrow>\<close> large, s \<open>\<rightarrow>\<close> small, m \<open>\<rightarrow>\<close> medium, cover \<open>\<rightarrow>\<close> cover,
  lock \<open>\<rightarrow>\<close> notification; a token that is not in the table gives unknown.
\<close>

theorem group_of_name_first_dash:
  "CHR ''-'' \<in> set icon_name \<Longrightarrow>
   group_of_name icon_name = Inr (lookup_table (token_after_first_dash icon_name))"
  by (rule group_of_name_dash)

theorem group_of_name_first_dash_witness:
  "CHR ''-'' \<in> set ''icon-lock-wifi-2'' \<and> group_of_name ''icon-lock-wifi-2'' = Inr ''notification''"
  using group_of_name_first_dash [of "''icon-lock-wifi-2''"]
  by (simp add: lookup_table_def token_after_first_dash_def)

text \<open>
  C4, as the code has it. The lookup is exact: for a file name
  \<open>prefix-token.svg\<close> or \<open>prefix-token-rest.svg\<close> the group is small, medium, large,
  cover or notification when the token between the first and the second \<open>-\<close> is
  exactly s, m, l, cover or lock, and unknown for every other token, also for one
  that only begins with one of these marks.
\<close>

theorem icon_details_group_exact_token:
  assumes "CHR ''/'' \<notin> set (prefix @ token @ rest)"
    and "CHR ''-'' \<notin> set prefix" and "CHR ''-'' \<notin> set token"
    and "rest = [] \<or> hd rest = CHR ''-''"
  shows "icon_details sy (os_path_join root_dir (prefix @ ''-'' @ token @ rest @ ''.svg'')) result_dir =
         Inr \<lparr>name = prefix @ ''-'' @ token @ rest,
              group = (if token = ''s'' then ''small''
                       else if token = ''m'' then ''medium''
                       else if token = ''l'' then ''large''
                       else if token = ''cover'' then ''cover''
                       else if token = ''lock'' then ''notification''
                       else ''unknown''),
              relpath = os_path_relpath sy (os_path_join root_dir (prefix @ ''-'' @ token @ rest @ ''.svg'')) result_dir\<rparr>"
proof -
  let ?b = "prefix @ ''-'' @ token @ rest"
  have "CHR ''/'' \<notin> set (?b @ ''.svg'')"
    using assms(1) by simp
  then have "os_path_basename (os_path_join root_dir (?b @ ''.svg'')) = ?b @ ''.svg''"
    by (rule os_path_basename_join)
  moreover have "str_rsplit1 (CHR ''.'') (?b @ CHR ''.'' # ''svg'') = [?b, ''svg'']"
    by (rule str_rsplit1_ext) simp
  ultimately have n: "list_getitem (str_rsplit1 (CHR ''.'') (os_path_basename (os_path_join root_dir (?b @ ''.svg'')))) 0 = Inr ?b"
    by (simp add: list_getitem_def)
  have g: "group_of_name ?b = Inr (lookup_table token)"
    using assms(2-4) by (rule group_of_name_token)
  show ?thesis
    unfolding icon_details_def using n g
    by (simp add: lookup_table_def)
qed

theorem icon_details_group_exact_token_witness:
  "CHR ''/'' \<notin> set (''icon'' @ ''cover'' @ ''-camera'') \<and> CHR ''-'' \<notin> set ''icon'' \<and> CHR ''-'' \<notin> set ''cover''
   \<and> (''-camera'' = [] \<or> hd ''-camera'' = CHR ''-'')
   \<and> icon_details (example_sys [] (Inl ValueError)) (os_path_join ''/icons'' ''icon-cover-camera.svg'') ''/out'' =
       Inr \<lparr>name = ''icon-cover-camera'', group = ''cover'', relpath = ''/icons/icon-cover-camera.svg''\<rparr>"
  using icon_details_group_exact_token [of "''icon''" "''cover''" "''-camera''" "example_sys [] (Inl ValueError)" "''/icons''" "''/out''"]
  by (simp add: example_sys_def os_path_join_def)

text \<open>
  C4 as stated fails: the middle token of \<open>app-small.svg\<close> begins with s, and the
  group is unknown, not small.
\<close>

theorem icon_details_s_prefix_counterexample:
  "icon_details (example_sys [] (Inl ValueError)) (os_path_join ''/icons'' ''app-small.svg'') ''/out'' =
     Inr \<lparr>name = ''app-small'', group = ''unknown'', relpath = ''/icons/app-small.svg''\<rparr>
   \<and> ''unknown'' \<noteq> ''small''"
  by (simp add: example_sys_def scan_defs string_ops dict_ops ICON_GROUP_MARKS_def)

text \<open>
  C1. A scanned \<open>.svg\<close> file whose base name has no \<open>-\<close> should be classified as
  unknown without an exception. The code raises: \<^verbatim>\<open>icon_name.split('-')\<close> has one
  element, \<^verbatim>\<open>[1]\<close> is out of range, and the default of \<^verbatim>\<open>.get\<close> is never reached.
  A directory that holds \<open>readme.svg\<close> makes \<open>get_icons\<close> end in IndexError.
\<close>

theorem get_icons_name_without_dash_raises:
  "get_icons (example_sys [(''/icons'', [], [''readme.svg''])] (Inl ValueError)) example_fs ''/icons'' ''/out''
   = Inl IndexError"
  by (simp add: example_sys_def scan_defs string_ops)

subsection \<open>The group selector\<close>

text \<open>
  C3, as the code has it. When none of \<open>--small\<close>, \<open>--medium\<close>, \<open>--large\<close>,
  \<open>--cover\<close> is set, \<open>get_groups\<close> returns the values of \<open>ICON_GROUP_MARKS\<close> in the
  order of that table: large, small, medium, cover, notification. These are the five
  categories of \<open>ICON_GROUP_ORDER\<close>, in another order.
\<close>

theorem get_groups_no_flags:
  assumes "\<not> small fl" and "\<not> medium fl" and "\<not> large fl" and "\<not> cover fl"
  shows "get_groups fl = [''large'', ''small'', ''medium'', ''cover'', ''notification'']
       \<and> get_groups fl = map snd ICON_GROUP_MARKS
       \<and> set (get_groups fl) = set ICON_GROUP_ORDER"
  using assms
  by (auto simp add: get_groups_def flag_of_def dict_values_def ICON_GROUP_MARKS_def ICON_GROUP_ORDER_def)

theorem get_groups_no_flags_witness:
  "\<not> small (parse_args (example_sys example_tree (Inl ValueError)) example_fs example_argv)
   \<and> \<not> medium (parse_args (example_sys example_tree (Inl ValueError)) example_fs example_argv)
   \<and> \<not> large (parse_args (example_sys example_tree (Inl ValueError)) example_fs example_argv)
   \<and> \<not> cover (parse_args (example_sys example_tree (Inl ValueError)) example_fs example_argv)
   \<and> get_groups (parse_args (example_sys example_tree (Inl ValueError)) example_fs example_argv)
       = [''large'', ''small'', ''medium'', ''cover'', ''notification'']"
  using get_groups_no_flags [of "parse_args (example_sys example_tree (Inl ValueError)) example_fs example_argv"]
  by (simp add: parse_args_def example_argv_def)

text \<open>
  C3 as stated fails: with no flag set the list is not in the canonical order
  small, medium, large, cover, notification.
\<close>

theorem get_groups_canonical_counterexample:
  "get_groups (parse_args (example_sys example_tree (Inl ValueError)) example_fs example_argv)
     = [''large'', ''small'', ''medium'', ''cover'', ''notification'']
   \<and> get_groups (parse_args (example_sys example_tree (Inl ValueError)) example_fs example_argv)
     \<noteq> [''small'', ''medium'', ''large'', ''cover'', ''notification'']"
  by (simp add: get_groups_def flag_of_def dict_values_def ICON_GROUP_MARKS_def parse_args_def example_argv_def)

subsection \<open>Chunking\<close>

lemma split_by_loop_unfold:
  "0 < n \<Longrightarrow> xs \<noteq> [] \<Longrightarrow> split_by_loop xs n = take n xs # split_by_loop (drop n xs) n"
  by (subst split_by_loop.simps) simp

lemma split_by_loop_Nil: "split_by_loop [] n = []"
  by (subst split_by_loop.simps) simp

lemma concat_split_by_loop: "0 < n \<Longrightarrow> concat (split_by_loop xs n) = xs"
proof (induction xs n rule: split_by_loop.induct)
  case (1 items n)
  show ?case
  proof (cases "items = []")
    case True
    then show ?thesis by (simp add: split_by_loop_Nil)
  next
    case False
    with "1.prems" have "take n items \<noteq> []" by simp
    with "1.IH" "1.prems" have "concat (split_by_loop (drop n items) n) = drop n items"
      by simp
    with False "1.prems" show ?thesis
      by (simp add: split_by_loop_unfold)
  qed
qed

lemma split_by_loop_eq_Nil: "0 < n \<Longrightarrow> split_by_loop xs n = [] \<longleftrightarrow> xs = []"
  by (cases "xs = []") (simp_all add: split_by_loop_Nil split_by_loop_unfold)

lemma length_split_by_loop: "0 < n \<Longrightarrow> length (split_by_loop xs n) = (length xs + n - 1) div n"
proof (induction xs n rule: split_by_loop.induct)
  case (1 items n)
  show ?case
  proof (cases "items = []")
    case True
    then show ?thesis using "1.prems" by (simp add: split_by_loop_Nil)
  next
    case False
    with "1.prems" have "take n items \<noteq> []" by simp
    with "1.IH" "1.prems" have ih: "length (split_by_loop (drop n items) n) = (length (drop n items) + n - 1) div n"
      by simp
    show ?thesis
    proof (cases "n \<le> length items")
      case True
      then have "length items + n - 1 = (length items - n + n - 1) + n"
        using "1.prems" by simp
      then have "(length items + n - 1) div n = Suc ((length items - n + n - 1) div n)"
        using "1.prems" by (metis div_add_self2 Suc_eq_plus1 less_numeral_extra(3))
      with ih False "1.prems" show ?thesis
        by (simp add: split_by_loop_unfold)
    next
      case False
      from False \<open>items \<noteq> []\<close> obtain k where k: "length items = Suc k" and "k < n"
        by (cases items) auto
      then have "(n + k) div n = 1"
        by simp
      moreover have "length items + n - 1 = n + k"
        by (simp add: k)
      ultimately have "(length items + n - 1) div n = 1"
        by (simp only:)
      with False \<open>items \<noteq> []\<close> "1.prems" show ?thesis
        by (simp add: split_by_loop_unfold split_by_loop_Nil)
    qed
  qed
qed

lemma split_by_loop_pieces:
  "0 < n \<Longrightarrow> c \<in> set (split_by_loop xs n) \<Longrightarrow> c \<noteq> [] \<and> length c \<le> n"
proof (induction xs n rule: split_by_loop.induct)
  case (1 items n)
  show ?case
  proof (cases "items = []")
    case True
    with "1.prems" show ?thesis by (simp add: split_by_loop_Nil)
  next
    case False
    with "1.prems" have t: "take n items \<noteq> []" by simp
    from False "1.prems" have "c = take n items \<or> c \<in> set (split_by_loop (drop n items) n)"
      by (simp add: split_by_loop_unfold)
    then show ?thesis
    proof
      assume "c = take n items"
      with t show ?thesis by simp
    next
      assume "c \<in> set (split_by_loop (drop n items) n)"
      with "1.IH" t "1.prems" show ?thesis by simp
    qed
  qed
qed

lemma split_by_loop_butlast:
  "0 < n \<Longrightarrow> c \<in> set (butlast (split_by_loop xs n)) \<Longrightarrow> length c = n"
proof (induction xs n rule: split_by_loop.induct)
  case (1 items n)
  show ?case
  proof (cases "items = []")
    case True
    with "1.prems" show ?thesis by (simp add: split_by_loop_Nil)
  next
    case False
    with "1.prems" have t: "take n items \<noteq> []" by simp
    have u: "split_by_loop items n = take n items # split_by_loop (drop n items) n"
      using False "1.prems" by (simp add: split_by_loop_unfold)
    show ?thesis
    proof (cases "drop n items = []")
      case True
      with u "1.prems" show ?thesis by (simp add: split_by_loop_Nil)
    next
      case False
      then have ne: "split_by_loop (drop n items) n \<noteq> []"
        using "1.prems" by (simp add: split_by_loop_eq_Nil)
      from False have "n < length items" by simp
      then have "length (take n items) = n" by simp
      moreover from u ne "1.prems" have "c = take n items \<or> c \<in> set (butlast (split_by_loop (drop n items) n))"
        by simp
      ultimately show ?thesis
        using "1.IH" t "1.prems" by auto
    qed
  qed
qed

lemma ceiling_div_nat:
  assumes "0 < n"
  shows "\<lceil>real L / real n\<rceil> = int ((L + n - 1) div n)"
proof -
  define q where "q = (L + n - 1) div n"
  have "q * n \<le> L + n - 1"
    unfolding q_def by simp
  with assms have up: "q * n < L + n"
    by arith
  have "L + n - 1 < q * n + n"
    unfolding q_def using assms dividend_less_div_times [of n "L + n - 1"] by (simp add: mult.commute)
  with assms have lo: "L \<le> q * n"
    by arith
  from up have "real (q * n) < real (L + n)"
    by (simp only: of_nat_less_iff)
  then have "(real q - 1) * real n < real L"
    by (simp add: algebra_simps)
  then have 1: "of_int (int q) - 1 < real L / real n"
    using assms by (simp add: pos_less_divide_eq)
  from lo have "real L \<le> real (q * n)"
    by (simp only: of_nat_le_iff)
  then have 2: "real L / real n \<le> of_int (int q)"
    using assms by (simp add: pos_divide_le_eq)
  from 1 2 have "\<lceil>real L / real n\<rceil> = int q"
    by (rule ceiling_unique)
  then show ?thesis
    by (simp add: q_def)
qed

text \<open>
  C6, as the code has it. For a sequence of length \<open>L\<close> and a chunk size \<open>n\<close> with
  \<open>1 \<le> n \<le> sys.maxsize\<close>, \<open>split_by\<close> yields \<open>\<lceil>L / n\<rceil>\<close> chunks, each of length
  \<open>n\<close> except possibly the last (which is not empty and not longer than \<open>n\<close>), and
  the chunks concatenated in order are the sequence.
\<close>

theorem split_by_chunks:
  assumes "1 \<le> n" and "n \<le> maxsize"
  shows "\<exists>chunks. split_by maxsize entries n = Inr chunks
           \<and> int (length chunks) = \<lceil>real (length entries) / real_of_int n\<rceil>
           \<and> (\<forall>i. i + 1 < length chunks \<longrightarrow> length (chunks ! i) = nat n)
           \<and> (chunks \<noteq> [] \<longrightarrow> 1 \<le> length (last chunks) \<and> length (last chunks) \<le> nat n)
           \<and> concat chunks = entries"
proof -
  define m where "m = nat n"
  with assms have m: "0 < m" and n: "n = int m" by simp_all
  let ?chunks = "split_by_loop entries m"
  have a: "split_by maxsize entries n = Inr ?chunks"
    using assms by (simp add: split_by_def m_def)
  have b: "int (length ?chunks) = \<lceil>real (length entries) / real_of_int n\<rceil>"
    using ceiling_div_nat [OF m, of "length entries"] length_split_by_loop [OF m, of entries]
    by (simp add: n)
  have c: "length (?chunks ! i) = m" if "i + 1 < length ?chunks" for i
  proof -
    from that have "i < length (butlast ?chunks)" by simp
    then have "butlast ?chunks ! i \<in> set (butlast ?chunks)"
      by (rule nth_mem)
    moreover from \<open>i < length (butlast ?chunks)\<close> have "butlast ?chunks ! i = ?chunks ! i"
      by (simp add: nth_butlast)
    ultimately show ?thesis
      using split_by_loop_butlast [OF m] by metis
  qed
  have d: "1 \<le> length (last ?chunks) \<and> length (last ?chunks) \<le> m" if "?chunks \<noteq> []"
  proof -
    from that have "last ?chunks \<in> set ?chunks" by simp
    with split_by_loop_pieces [OF m] have "last ?chunks \<noteq> [] \<and> length (last ?chunks) \<le> m"
      by blast
    then show ?thesis
      by (cases "last ?chunks") simp_all
  qed
  have e: "concat ?chunks = entries"
    using m by (rule concat_split_by_loop)
  from a b c d e show ?thesis
    unfolding m_def by blast
qed

theorem split_by_chunks_witness:
  "(1::int) \<le> 3 \<and> (3::int) \<le> 9223372036854775807
   \<and> split_by 9223372036854775807 [1, 2, 3, 4, 5, 6, 7 :: nat] 3 = Inr [[1, 2, 3], [4, 5, 6], [7]]
   \<and> \<lceil>real (length [1, 2, 3, 4, 5, 6, 7 :: nat]) / real_of_int 3\<rceil> = 3"
proof -
  have u: "\<And>xs n. split_by_loop xs n = (if take n xs \<noteq> [] then take n xs # split_by_loop (drop n xs) n else [])"
    by (subst split_by_loop.simps) simp
  from split_by_chunks [of 3 9223372036854775807 "[1, 2, 3, 4, 5, 6, 7 :: nat]"]
  obtain chunks where "split_by 9223372036854775807 [1, 2, 3, 4, 5, 6, 7 :: nat] 3 = Inr chunks"
    and "int (length chunks) = \<lceil>real (length [1, 2, 3, 4, 5, 6, 7 :: nat]) / real_of_int 3\<rceil>"
    by auto
  moreover have "split_by 9223372036854775807 [1, 2, 3, 4, 5, 6, 7 :: nat] 3 = Inr [[1, 2, 3], [4, 5, 6], [7]]"
    by (simp add: split_by_def u)
  ultimately show ?thesis by auto
qed

text \<open>
  C6 as stated fails: a chunk size above \<^verbatim>\<open>sys.maxsize\<close> is at least 1, and
  \<^verbatim>\<open>islice\<close> refuses it, so the generator raises ValueError and yields no chunk
  where the claim expects \<open>\<lceil>3 / n\<rceil> = 1\<close>. Here \<open>sys.maxsize = 2\<^sup>6\<^sup>3 - 1\<close> and
  \<open>n = 2\<^sup>6\<^sup>3\<close>.
\<close>

theorem split_by_above_maxsize_counterexample:
  "(1::int) \<le> 9223372036854775808
   \<and> split_by 9223372036854775807 [1, 2, 3 :: nat] 9223372036854775808 = Inl ValueError"
  by (simp add: split_by_def)

subsection \<open>Ordering the groups\<close>

lemma list_index_position: "x \<in> set xs \<Longrightarrow> list_index xs x = Inr (position xs x)"
  by (induction xs) (auto simp: position_def)

lemma list_index_missing: "x \<notin> set xs \<Longrightarrow> list_index xs x = Inl ValueError"
  by (induction xs) auto

lemma position_inj: "x \<in> set xs \<Longrightarrow> position xs x = position xs y \<Longrightarrow> x = y"
  by (induction xs) (auto simp: position_def split: if_splits)

lemma cmp_groups_position:
  assumes "a \<in> set ICON_GROUP_ORDER" and "b \<in> set ICON_GROUP_ORDER"
  shows "cmp_groups a b =
         Inr (if position ICON_GROUP_ORDER a > position ICON_GROUP_ORDER b then 1
              else if position ICON_GROUP_ORDER a = position ICON_GROUP_ORDER b then 0 else - 1)"
  using assms by (simp add: cmp_groups_def list_index_position)

lemma insort_cmp_groups:
  assumes "x \<in> set ICON_GROUP_ORDER" and "set ys \<subseteq> set ICON_GROUP_ORDER"
  shows "insort_cmp cmp_groups x ys = Inr (insort_key (position ICON_GROUP_ORDER) x ys)"
  using assms
proof (induction ys)
  case Nil
  then show ?case by simp
next
  case (Cons y ys)
  then have "y \<in> set ICON_GROUP_ORDER" by simp
  with Cons show ?case
    by (auto simp add: cmp_groups_position)
qed

lemma sort_cmp_groups:
  "set xs \<subseteq> set ICON_GROUP_ORDER \<Longrightarrow>
   sort_cmp cmp_groups xs = Inr (sort_key (position ICON_GROUP_ORDER) xs)"
proof (induction xs)
  case Nil
  then show ?case by simp
next
  case (Cons x xs)
  then show ?case
    by (simp add: insort_cmp_groups)
qed

lemma sorted_position_order: "sorted (map (position ICON_GROUP_ORDER) ICON_GROUP_ORDER)"
  by (simp add: ICON_GROUP_ORDER_def position_def)

lemma distinct_order: "distinct ICON_GROUP_ORDER"
  by (simp add: ICON_GROUP_ORDER_def)

lemma inj_on_position: "inj_on (position xs) (set xs)"
  by (rule inj_onI) (rule position_inj)

lemma sort_key_position_filter:
  assumes "distinct xs" and "set xs \<subseteq> set ICON_GROUP_ORDER"
  shows "sort_key (position ICON_GROUP_ORDER) xs = filter (\<lambda>g. g \<in> set xs) ICON_GROUP_ORDER"
proof -
  let ?p = "position ICON_GROUP_ORDER"
  let ?l = "sort_key ?p xs" and ?r = "filter (\<lambda>g. g \<in> set xs) ICON_GROUP_ORDER"
  have inj: "inj_on ?p (set xs)"
    using inj_on_position assms(2) by (rule inj_on_subset)
  have sets: "set ?l = set xs" "set ?r = set xs"
    using assms(2) by auto
  have "sorted (map ?p ?l)"
    by (rule sorted_sort_key)
  moreover have "distinct (map ?p ?l)"
    using assms(1) inj by (simp add: distinct_map)
  moreover have "sorted (map ?p ?r)"
    using sorted_position_order by (rule sorted_filter)
  moreover have "distinct (map ?p ?r)"
    using distinct_order inj sets by (simp add: distinct_map)
  moreover have "set (map ?p ?l) = set (map ?p ?r)"
    using sets by simp
  ultimately have "map ?p ?l = map ?p ?r"
    by (rule sorted_distinct_set_unique)
  moreover have "inj_on ?p (set ?l \<union> set ?r)"
    using inj sets by simp
  ultimately show ?thesis
    by (simp add: inj_on_map_eq_map)
qed

text \<open>
  C7. For every list that is a permutation of a subset of
  \<open>{small, medium, large, cover, notification}\<close> (its elements are distinct and
  canonical), \<open>icon_group_order\<close> returns its elements in the canonical order: the
  canonical list restricted to the elements of the input.
\<close>

theorem icon_group_order_canonical:
  assumes "distinct items" and "set items \<subseteq> set ICON_GROUP_ORDER"
  shows "icon_group_order items = Inr (filter (\<lambda>g. g \<in> set items) ICON_GROUP_ORDER)"
  using assms by (simp add: icon_group_order_def sort_cmp_groups sort_key_position_filter)

theorem icon_group_order_canonical_witness:
  "distinct [''cover'', ''notification'', ''small'', ''large'']
   \<and> set [''cover'', ''notification'', ''small'', ''large''] \<subseteq> set ICON_GROUP_ORDER
   \<and> icon_group_order [''cover'', ''notification'', ''small'', ''large'']
       = Inr [''small'', ''large'', ''cover'', ''notification'']"
  using icon_group_order_canonical [of "[''cover'', ''notification'', ''small'', ''large'']"]
  by (simp add: ICON_GROUP_ORDER_def)

subsection \<open>The index\<close>

lemma index_of_Nil: "index_of [] []"
  by (simp add: index_of_def)

lemma index_of_contains: "index_of ds idx \<Longrightarrow> dict_contains idx g \<longleftrightarrow> g \<in> group ` set ds"
proof -
  assume a: "index_of ds idx"
  have "dict_contains idx g \<longleftrightarrow> map_of idx g \<noteq> None"
    by (simp add: dict_contains_def map_of_eq_None_iff)
  with a show ?thesis
    by (simp add: index_of_def)
qed

lemma add_icon_index_of:
  assumes "index_of ds idx"
  shows "\<exists>idx'. add_icon d idx = Inr idx' \<and> index_of (ds @ [d]) idx'"
proof (cases "group d \<in> group ` set ds")
  case True
  with assms have c: "dict_contains idx (group d)"
    by (simp add: index_of_contains)
  from assms True have l: "map_of idx (group d) = Some (filter (\<lambda>r. group r = group d) ds)"
    by (simp add: index_of_def)
  let ?idx' = "AList.update (group d) (filter (\<lambda>r. group r = group d) ds @ [d]) idx"
  have "add_icon d idx = Inr ?idx'"
    using c l by (simp add: add_icon_def dict_getitem_def)
  moreover have "index_of (ds @ [d]) ?idx'"
    using assms by (auto simp add: index_of_def distinct_update update_conv')
  ultimately show ?thesis by blast
next
  case False
  with assms have c: "\<not> dict_contains idx (group d)"
    by (simp add: index_of_contains)
  from False have "\<forall>r \<in> set ds. group r \<noteq> group d"
    by (metis image_eqI)
  then have f: "filter (\<lambda>r. group r = group d) ds = []"
    by (simp add: filter_empty_conv)
  let ?idx1 = "AList.update (group d) [] idx"
  let ?idx' = "AList.update (group d) [d] ?idx1"
  have "add_icon d idx = Inr ?idx'"
    using c by (simp add: add_icon_def dict_getitem_def update_conv')
  moreover have "index_of (ds @ [d]) ?idx'"
    using assms f by (auto simp add: index_of_def distinct_update update_conv')
  ultimately show ?thesis by blast
qed

lemma scan_file_index_of:
  assumes "index_of ds idx" and "scan_file sy result_dir root_dir filename idx = Inr idx'"
  shows "index_of (ds @ file_records sy result_dir root_dir filename) idx'"
proof (cases "str_endswith (str_lower (os_path_join root_dir filename)) ''.svg''")
  case False
  with assms show ?thesis
    by (simp add: scan_file_def file_records_def)
next
  case True
  with assms(2) obtain d where d: "icon_details sy (os_path_join root_dir filename) result_dir = Inr d"
    and a: "add_icon d idx = Inr idx'"
    by (auto simp add: scan_file_def split: sum.splits)
  from add_icon_index_of [OF assms(1), of d] a have "index_of (ds @ [d]) idx'"
    by auto
  with True d show ?thesis
    by (simp add: file_records_def)
qed

lemma scan_files_index_of:
  "index_of ds idx \<Longrightarrow> scan_files sy result_dir root_dir files idx = Inr idx' \<Longrightarrow>
   index_of (ds @ concat (map (file_records sy result_dir root_dir) files)) idx'"
proof (induction files arbitrary: ds idx)
  case Nil
  then show ?case by simp
next
  case (Cons filename files)
  from Cons.prems(2) obtain idx1 where 1: "scan_file sy result_dir root_dir filename idx = Inr idx1"
    and 2: "scan_files sy result_dir root_dir files idx1 = Inr idx'"
    by (auto split: sum.splits)
  from Cons.prems(1) 1 have "index_of (ds @ file_records sy result_dir root_dir filename) idx1"
    by (rule scan_file_index_of)
  from Cons.IH [OF this 2] show ?case by simp
qed

lemma scan_walk_index_of:
  "index_of ds idx \<Longrightarrow> scan_walk sy result_dir tree idx = Inr idx' \<Longrightarrow>
   index_of (ds @ discovered sy result_dir tree) idx'"
proof (induction tree arbitrary: ds idx)
  case Nil
  then show ?case by (simp add: discovered_def)
next
  case (Cons t tree)
  obtain root_dir dirs files where t: "t = (root_dir, dirs, files)"
    by (cases t) auto
  from Cons.prems(2) t obtain idx1 where 1: "scan_files sy result_dir root_dir files idx = Inr idx1"
    and 2: "scan_walk sy result_dir tree idx1 = Inr idx'"
    by (auto split: sum.splits)
  from Cons.prems(1) 1 have "index_of (ds @ concat (map (file_records sy result_dir root_dir) files)) idx1"
    by (rule scan_files_index_of)
  from Cons.IH [OF this 2] show ?case
    by (simp add: discovered_def t)
qed

lemma sort_groups_sorted:
  "set gs \<subseteq> set (map fst idx) \<Longrightarrow> distinct gs \<Longrightarrow>
   \<exists>idx'. sort_groups gs idx = Inr idx' \<and> map fst idx' = map fst idx \<and>
     (\<forall>g. map_of idx' g =
        (if g \<in> set gs then map_option (sort_key name) (map_of idx g) else map_of idx g))"
proof (induction gs arbitrary: idx)
  case Nil
  then show ?case by simp
next
  case (Cons g gs)
  from Cons.prems(1) have "g \<in> set (map fst idx)" by simp
  then obtain recs where recs: "map_of idx g = Some recs"
    by (metis map_of_eq_None_iff not_Some_eq set_map)
  let ?idx1 = "AList.update g (sort_key name recs) idx"
  have keys: "map fst ?idx1 = map fst idx"
    using \<open>g \<in> set (map fst idx)\<close> by (simp add: update_keys)
  with Cons.prems have "set gs \<subseteq> set (map fst ?idx1)" and "distinct gs"
    by simp_all
  from Cons.IH [OF this] obtain idx' where s: "sort_groups gs ?idx1 = Inr idx'"
    and k: "map fst idx' = map fst ?idx1"
    and m: "\<forall>h. map_of idx' h =
        (if h \<in> set gs then map_option (sort_key name) (map_of ?idx1 h) else map_of ?idx1 h)"
    by blast
  have "sort_groups (g # gs) idx = Inr idx'"
    using recs s by (simp add: dict_getitem_def)
  moreover have "map fst idx' = map fst idx"
    using k keys by simp
  moreover have "\<forall>h. map_of idx' h =
        (if h \<in> set (g # gs) then map_option (sort_key name) (map_of idx h) else map_of idx h)"
    using m recs Cons.prems(2) by (auto simp add: update_conv')
  ultimately show ?case by blast
qed

lemma get_icons_index:
  assumes "get_icons sy fs icons_path result_dir = Inr idx"
  shows "distinct (map fst idx) \<and>
     (\<forall>g. map_of idx g =
        (if g \<in> group ` set (discovered sy result_dir (os_walk sy fs icons_path))
         then Some (sort_key name (filter (\<lambda>r. group r = g) (discovered sy result_dir (os_walk sy fs icons_path))))
         else None))"
proof -
  let ?ds = "discovered sy result_dir (os_walk sy fs icons_path)"
  from assms obtain idx0 where 0: "scan_walk sy result_dir (os_walk sy fs icons_path) [] = Inr idx0"
    and 1: "sort_groups (map fst idx0) idx0 = Inr idx"
    by (auto simp add: get_icons_def split: sum.splits)
  from scan_walk_index_of [OF index_of_Nil 0] have i: "index_of ?ds idx0"
    by simp
  then have d: "distinct (map fst idx0)"
    by (simp add: index_of_def)
  from sort_groups_sorted [of "map fst idx0" idx0] d 1
  have k: "map fst idx = map fst idx0"
    and m: "\<forall>g. map_of idx g =
        (if g \<in> set (map fst idx0) then map_option (sort_key name) (map_of idx0 g) else map_of idx0 g)"
    by auto
  have "map_of idx g =
        (if g \<in> group ` set ?ds then Some (sort_key name (filter (\<lambda>r. group r = g) ?ds)) else None)" for g
  proof (cases "g \<in> group ` set ?ds")
    case True
    with i have "map_of idx0 g = Some (filter (\<lambda>r. group r = g) ?ds)"
      by (simp add: index_of_def)
    moreover from this have "g \<in> set (map fst idx0)"
      by (metis map_of_eq_None_iff option.distinct(1) set_map)
    ultimately show ?thesis using m True by simp
  next
    case False
    with i have "map_of idx0 g = None"
      by (simp add: index_of_def)
    moreover from this have "g \<notin> set (map fst idx0)"
      by (simp add: map_of_eq_None_iff)
    ultimately show ?thesis using m False by simp
  qed
  with d k show ?thesis by simp
qed

lemma get_icons_entry:
  assumes "get_icons sy fs icons_path result_dir = Inr idx" and "(g, recs) \<in> set idx"
  shows "g \<in> group ` set (discovered sy result_dir (os_walk sy fs icons_path)) \<and>
         recs = sort_key name (filter (\<lambda>r. group r = g) (discovered sy result_dir (os_walk sy fs icons_path)))"
proof -
  from get_icons_index [OF assms(1)] have d: "distinct (map fst idx)"
    and m: "\<And>g. map_of idx g =
        (if g \<in> group ` set (discovered sy result_dir (os_walk sy fs icons_path))
         then Some (sort_key name (filter (\<lambda>r. group r = g) (discovered sy result_dir (os_walk sy fs icons_path))))
         else None)"
    by simp_all
  from d assms(2) have "map_of idx g = Some recs"
    by (rule map_of_is_SomeI)
  with m [of g] show ?thesis
    by (auto split: if_splits)
qed

lemma example_get_icons:
  "get_icons (example_sys example_tree loaded) fs p ''/out'' =
   Inr [(''medium'',
         [\<lparr>name = ''a-m'', group = ''medium'', relpath = ''/icons/sub/a-m.svg''\<rparr>,
          \<lparr>name = ''b-m-x'', group = ''medium'', relpath = ''/icons/b-m-x.svg''\<rparr>,
          \<lparr>name = ''b-m-x'', group = ''medium'', relpath = ''/icons/sub/b-m-x.svg''\<rparr>]),
        (''small'', [\<lparr>name = ''a-s'', group = ''small'', relpath = ''/icons/a-s.SVG''\<rparr>]),
        (''unknown'', [\<lparr>name = ''c-zz'', group = ''unknown'', relpath = ''/icons/sub/c-zz.svg''\<rparr>])]"
  by (simp add: example_sys_def example_tree_def scan_defs string_ops dict_ops ICON_GROUP_MARKS_def
      less_eq_char_def less_char_def)

lemma example_get_icons_index:
  "get_icons (example_sys example_tree loaded) fs p ''/out'' = Inr example_index"
  by (simp add: example_index_def example_get_icons)

lemma example_discovered:
  "discovered (example_sys example_tree loaded) ''/out'' example_tree =
     [\<lparr>name = ''b-m-x'', group = ''medium'', relpath = ''/icons/b-m-x.svg''\<rparr>,
      \<lparr>name = ''a-s'', group = ''small'', relpath = ''/icons/a-s.SVG''\<rparr>,
      \<lparr>name = ''a-m'', group = ''medium'', relpath = ''/icons/sub/a-m.svg''\<rparr>,
      \<lparr>name = ''b-m-x'', group = ''medium'', relpath = ''/icons/sub/b-m-x.svg''\<rparr>,
      \<lparr>name = ''c-zz'', group = ''unknown'', relpath = ''/icons/sub/c-zz.svg''\<rparr>]"
  by (simp add: discovered_def file_records_def example_sys_def example_tree_def scan_defs string_ops dict_ops ICON_GROUP_MARKS_def)

text \<open>
  C8. For every scan that returns, the records of each group of the index are sorted
  ascending by name in the lexicographic order of strings; they are exactly the
  discovered records of that group, duplicates kept, and records of equal name stand in
  their discovery order.
\<close>

theorem get_icons_groups_sorted_stable:
  assumes "get_icons sy fs icons_path result_dir = Inr idx" and "(g, recs) \<in> set idx"
  shows "sorted (map name recs)
       \<and> mset recs = mset (filter (\<lambda>r. group r = g) (discovered sy result_dir (os_walk sy fs icons_path)))
       \<and> (\<forall>k. filter (\<lambda>r. name r = k) recs =
               filter (\<lambda>r. name r = k)
                 (filter (\<lambda>r. group r = g) (discovered sy result_dir (os_walk sy fs icons_path))))"
  using get_icons_entry [OF assms] by (simp add: sort_key_stable)

theorem get_icons_groups_sorted_stable_witness:
  "get_icons (example_sys example_tree (Inl ValueError)) example_fs ''/icons'' ''/out'' = Inr example_index
   \<and> (''medium'', example_medium) \<in> set example_index
   \<and> sorted (map name example_medium)
   \<and> filter (\<lambda>r. name r = ''b-m-x'') example_medium =
       [\<lparr>name = ''b-m-x'', group = ''medium'', relpath = ''/icons/b-m-x.svg''\<rparr>,
        \<lparr>name = ''b-m-x'', group = ''medium'', relpath = ''/icons/sub/b-m-x.svg''\<rparr>]"
proof -
  have h1: "get_icons (example_sys example_tree (Inl ValueError)) example_fs ''/icons'' ''/out'' = Inr example_index"
    by (rule example_get_icons_index)
  have h2: "(''medium'', example_medium) \<in> set example_index"
    by (simp add: example_index_def example_medium_def)
  have w: "os_walk (example_sys example_tree (Inl ValueError)) example_fs ''/icons'' = example_tree"
    by (simp add: example_sys_def)
  from get_icons_groups_sorted_stable [OF h1 h2]
  have "sorted (map name example_medium)"
    and "filter (\<lambda>r. name r = ''b-m-x'') example_medium =
         filter (\<lambda>r. name r = ''b-m-x'') (filter (\<lambda>r. group r = ''medium'')
           (discovered (example_sys example_tree (Inl ValueError)) ''/out'' example_tree))"
    by (simp_all only: w)
  with h1 h2 show ?thesis
    by (simp add: example_discovered)
qed

text \<open>
  C10. For every scan that returns, a group is a key of the index only if a record was
  classified into it: no key has an empty list, and every record under the key \<open>g\<close>
  has the group \<open>g\<close>.
\<close>

theorem get_icons_groups_nonempty:
  assumes "get_icons sy fs icons_path result_dir = Inr idx" and "(g, recs) \<in> set idx"
  shows "recs \<noteq> [] \<and> (\<forall>r \<in> set recs. group r = g)
       \<and> (\<exists>r \<in> set (discovered sy result_dir (os_walk sy fs icons_path)). group r = g)"
proof -
  let ?ds = "discovered sy result_dir (os_walk sy fs icons_path)"
  from get_icons_entry [OF assms] have g: "g \<in> group ` set ?ds"
    and r: "recs = sort_key name (filter (\<lambda>r. group r = g) ?ds)"
    by simp_all
  from g obtain d where "d \<in> set ?ds" and "group d = g" by auto
  then have "d \<in> set recs" using r by simp
  then have "recs \<noteq> []" by auto
  moreover have "\<forall>r \<in> set recs. group r = g" using r by simp
  ultimately show ?thesis using g by auto
qed

theorem get_icons_groups_nonempty_witness:
  "get_icons (example_sys example_tree (Inl ValueError)) example_fs ''/icons'' ''/out'' = Inr example_index
   \<and> (''small'', [\<lparr>name = ''a-s'', group = ''small'', relpath = ''/icons/a-s.SVG''\<rparr>]) \<in> set example_index
   \<and> [\<lparr>name = ''a-s'', group = ''small'', relpath = ''/icons/a-s.SVG''\<rparr>] \<noteq> []
   \<and> group \<lparr>name = ''a-s'', group = ''small'', relpath = ''/icons/a-s.SVG''\<rparr> = ''small''"
proof -
  have h1: "get_icons (example_sys example_tree (Inl ValueError)) example_fs ''/icons'' ''/out'' = Inr example_index"
    by (rule example_get_icons_index)
  have h2: "(''small'', [\<lparr>name = ''a-s'', group = ''small'', relpath = ''/icons/a-s.SVG''\<rparr>]) \<in> set example_index"
    by (simp add: example_index_def)
  from get_icons_groups_nonempty [OF h1 h2] h1 h2 show ?thesis
    by simp
qed

subsection \<open>The driver\<close>

lemma logger_log_debug: "logger_log DEBUG m as ei lg = lg"
  by (simp add: logger_log_def DEBUG_def INFO_def)

lemma logger_log_error: "logger_log ERROR m as ei lg = lg @ [\<lparr>levelno = ERROR, msg = m, args = as, exc_info = ei\<rparr>]"
  by (simp add: logger_log_def ERROR_def INFO_def)

lemma logger_log_info: "logger_log INFO m as ei lg = lg @ [\<lparr>levelno = INFO, msg = m, args = as, exc_info = ei\<rparr>]"
  by (simp add: logger_log_def)

lemmas logger_simps = logger_log_debug logger_log_error logger_log_info

text \<open>
  C9. If the icons path or the template path does not exist, the process logs one
  error and ends with the status \<open>EX_DATAERR\<close>; the file system is the one it
  started with, so no output file is written or created.
\<close>

theorem main_missing_path:
  assumes "\<not> os_path_exists sy fs (fs_path sy (arg_icons av))
         \<or> \<not> os_path_exists sy fs (fs_path sy (arg_template av))"
  shows "main sy av fs =
         (Exit EX_DATAERR,
          [\<lparr>levelno = ERROR,
            msg = (if \<not> os_path_exists sy fs (fs_path sy (arg_icons av))
                   then ''Icons path not found'' else ''Template not found''),
            args = [], exc_info = None\<rparr>],
          fs)"
  using assms
  by (auto simp add: main_def parse_args_def fs_path_exists_def Let_def logger_simps)

theorem main_missing_path_witness:
  "\<not> os_path_exists (example_sys [] (Inl ValueError)) example_fs
        (fs_path (example_sys [] (Inl ValueError)) (arg_icons example_argv))
   \<and> main (example_sys [] (Inl ValueError)) example_argv example_fs =
       (Exit 65,
        [\<lparr>levelno = 40, msg = ''Icons path not found'', args = [], exc_info = None\<rparr>],
        example_fs)"
proof -
  have h: "\<not> os_path_exists (example_sys [] (Inl ValueError)) example_fs
        (fs_path (example_sys [] (Inl ValueError)) (arg_icons example_argv))"
    by (simp add: example_sys_def fs_path_def example_argv_def example_fs_def)
  then have "\<not> os_path_exists (example_sys [] (Inl ValueError)) example_fs
        (fs_path (example_sys [] (Inl ValueError)) (arg_icons example_argv))
    \<or> \<not> os_path_exists (example_sys [] (Inl ValueError)) example_fs
        (fs_path (example_sys [] (Inl ValueError)) (arg_template example_argv))"
    by (rule disjI1)
  from main_missing_path [OF this] h show ?thesis
    by (simp add: EX_DATAERR_def ERROR_def)
qed

lemma write_result_raises:
  "fst (write_result sy tmpl idx groups fl fs) = Some exc \<longleftrightarrow>
     fst (os_makedirs sy (os_path_dirname (result fl)) fs) = Some exc
   \<or> (\<exists>fs1. os_makedirs sy (os_path_dirname (result fl)) fs = (None, fs1) \<and>
        (fst (open_wt sy (result fl) fs1) = Some exc
         \<or> (\<exists>fs2. open_wt sy (result fl) fs1 = (None, fs2) \<and>
              (tmpl idx groups DEFAULT_ELEMENTS_PER_ROW = Inl exc
               \<or> (\<exists>text. tmpl idx groups DEFAULT_ELEMENTS_PER_ROW = Inr text \<and>
                    fst (fp_write sy (result fl) text fs2) = Some exc)))))"
  by (auto simp add: write_result_def split: prod.splits option.splits sum.splits)

lemma example_parse_args:
  "parse_args (example_sys example_tree loaded) example_fs example_argv =
     \<lparr>icons = Some ''/icons'', template = Some ''/tpl/page.html'', result = ''/out/index.html'',
      small = False, medium = False, large = False, cover = False\<rparr>"
  by (simp add: parse_args_def fs_path_exists_def fs_path_def example_sys_def example_tree_def
      example_fs_def example_argv_def)

lemma example_dirname: "os_path_dirname ''/out/index.html'' = ''/out''"
  by (simp add: os_path_dirname_def str_rstrip_def)

lemma example_get_template:
  "get_template (example_sys example_tree loaded) fs nm dir = loaded"
  by (simp add: get_template_def example_sys_def)

lemma main_indexing_raises:
  assumes "os_path_exists sy fs (fs_path sy (arg_icons av))"
    and "os_path_exists sy fs (fs_path sy (arg_template av))"
    and "get_icons sy fs (fs_path sy (arg_icons av)) (os_path_dirname (fs_path sy (arg_result av))) = Inl e"
  shows "main sy av fs = (Unhandled e, [], fs)"
  using assms by (simp add: main_def parse_args_def fs_path_exists_def logger_simps)

text \<open>
  C2, as the code has it. When both paths exist and the indexing and the loading of
  the template have returned, every exception raised in the \<^verbatim>\<open>try\<close> block (creating
  the output directory, opening the output file, rendering, writing) is caught by the
  one \<^verbatim>\<open>except Exception\<close> of \<open>main\<close>, logged at level ERROR with the exception
  attached, and the process exits with status 1; otherwise it logs the result path and
  exits with \<open>EX_OK\<close>. Such a run never ends in an unhandled exception.
\<close>

theorem main_try_block:
  assumes "os_path_exists sy fs (fs_path sy (arg_icons av))"
    and "os_path_exists sy fs (fs_path sy (arg_template av))"
    and "get_icons sy fs (fs_path sy (arg_icons av)) (os_path_dirname (fs_path sy (arg_result av))) = Inr idx"
    and "get_template sy fs (os_path_basename (fs_path sy (arg_template av)))
           (os_path_dirname (fs_path sy (arg_template av))) = Inr tmpl"
  shows "(\<exists>exc fs'. write_result sy tmpl idx (get_groups (parse_args sy fs av)) (parse_args sy fs av) fs = (Some exc, fs')
            \<and> main sy av fs =
                (Exit 1,
                 [\<lparr>levelno = ERROR, msg = ''Error: %s'', args = [ArgExc exc], exc_info = Some exc\<rparr>],
                 fs'))
       \<or> (\<exists>fs'. write_result sy tmpl idx (get_groups (parse_args sy fs av)) (parse_args sy fs av) fs = (None, fs')
            \<and> main sy av fs =
                (Exit EX_OK,
                 [\<lparr>levelno = INFO, msg = ''Result file stored at: %s'',
                   args = [ArgStr (fs_path sy (arg_result av))], exc_info = None\<rparr>],
                 fs'))"
proof -
  let ?fl = "parse_args sy fs av"
  have i: "icons ?fl = Some (fs_path sy (arg_icons av))"
    and t: "template ?fl = Some (fs_path sy (arg_template av))"
    and r: "result ?fl = fs_path sy (arg_result av)"
    using assms(1,2) by (simp_all add: parse_args_def fs_path_exists_def)
  obtain res fs' where w: "write_result sy tmpl idx (get_groups ?fl) ?fl fs = (res, fs')"
    by (cases "write_result sy tmpl idx (get_groups ?fl) ?fl fs") auto
  show ?thesis
  proof (cases res)
    case None
    with w i t r assms(3,4) have "main sy av fs =
                (Exit EX_OK,
                 [\<lparr>levelno = INFO, msg = ''Result file stored at: %s'',
                   args = [ArgStr (fs_path sy (arg_result av))], exc_info = None\<rparr>],
                 fs')"
      by (simp add: main_def Let_def logger_simps)
    with w None show ?thesis by blast
  next
    case (Some exc)
    with w i t r assms(3,4) have "main sy av fs =
                (Exit 1,
                 [\<lparr>levelno = ERROR, msg = ''Error: %s'', args = [ArgExc exc], exc_info = Some exc\<rparr>],
                 fs')"
      by (simp add: main_def Let_def logger_simps)
    with w Some show ?thesis by blast
  qed
qed

theorem main_try_block_witness:
  "os_path_exists (example_sys example_tree (Inr failing_template)) example_fs
     (fs_path (example_sys example_tree (Inr failing_template)) (arg_icons example_argv))
   \<and> os_path_exists (example_sys example_tree (Inr failing_template)) example_fs
     (fs_path (example_sys example_tree (Inr failing_template)) (arg_template example_argv))
   \<and> get_icons (example_sys example_tree (Inr failing_template)) example_fs
       (fs_path (example_sys example_tree (Inr failing_template)) (arg_icons example_argv))
       (os_path_dirname (fs_path (example_sys example_tree (Inr failing_template)) (arg_result example_argv)))
       = Inr example_index
   \<and> get_template (example_sys example_tree (Inr failing_template)) example_fs
       (os_path_basename (fs_path (example_sys example_tree (Inr failing_template)) (arg_template example_argv)))
       (os_path_dirname (fs_path (example_sys example_tree (Inr failing_template)) (arg_template example_argv)))
       = Inr failing_template
   \<and> main (example_sys example_tree (Inr failing_template)) example_argv example_fs =
     (Exit 1,
      [\<lparr>levelno = 40, msg = ''Error: %s'', args = [ArgExc (TemplateError ''undefined'')],
        exc_info = Some (TemplateError ''undefined'')\<rparr>],
      [(''/tpl/page.html'', ''{{ groups }}''), (''/out/index.html'', [])])"
proof -
  let ?sy = "example_sys example_tree (Inr failing_template)"
  have p: "fs_path ?sy (arg_icons example_argv) = ''/icons''"
    "fs_path ?sy (arg_template example_argv) = ''/tpl/page.html''"
    "fs_path ?sy (arg_result example_argv) = ''/out/index.html''"
    by (simp_all add: fs_path_def example_sys_def example_argv_def)
  have h1: "os_path_exists ?sy example_fs (fs_path ?sy (arg_icons example_argv))"
    by (simp add: p) (simp add: example_sys_def example_tree_def)
  have h2: "os_path_exists ?sy example_fs (fs_path ?sy (arg_template example_argv))"
    by (simp add: p) (simp add: example_sys_def example_fs_def)
  have h3: "get_icons ?sy example_fs (fs_path ?sy (arg_icons example_argv))
       (os_path_dirname (fs_path ?sy (arg_result example_argv))) = Inr example_index"
    by (simp add: p example_dirname example_get_icons_index)
  have h4: "get_template ?sy example_fs
       (os_path_basename (fs_path ?sy (arg_template example_argv)))
       (os_path_dirname (fs_path ?sy (arg_template example_argv))) = Inr failing_template"
    by (rule example_get_template)
  have w: "write_result ?sy failing_template example_index
       (get_groups (parse_args ?sy example_fs example_argv)) (parse_args ?sy example_fs example_argv) example_fs
     = (Some (TemplateError ''undefined''), [(''/tpl/page.html'', ''{{ groups }}''), (''/out/index.html'', [])])"
    by (simp add: write_result_def example_parse_args failing_template_def example_dirname)
       (simp add: example_sys_def example_fs_def)
  from main_try_block [OF h1 h2 h3 h4] w
  have "main ?sy example_argv example_fs =
     (Exit 1,
      [\<lparr>levelno = ERROR, msg = ''Error: %s'', args = [ArgExc (TemplateError ''undefined'')],
        exc_info = Some (TemplateError ''undefined'')\<rparr>],
      [(''/tpl/page.html'', ''{{ groups }}''), (''/out/index.html'', [])])"
    by auto
  with h1 h2 h3 h4 show ?thesis
    by (simp add: ERROR_def)
qed

text \<open>
  C2 as stated fails: \<open>get_icons\<close>, \<open>get_groups\<close> and \<open>get_template\<close> are called
  before the \<^verbatim>\<open>try\<close>. With both paths present, a template that cannot be loaded
  ends the process in an unhandled exception, with nothing logged.
\<close>

theorem main_template_error_counterexample:
  "icons (parse_args (example_sys example_tree (Inl (TemplateError ''syntax''))) example_fs example_argv) = Some ''/icons''
   \<and> template (parse_args (example_sys example_tree (Inl (TemplateError ''syntax''))) example_fs example_argv) = Some ''/tpl/page.html''
   \<and> main (example_sys example_tree (Inl (TemplateError ''syntax''))) example_argv example_fs =
       (Unhandled (TemplateError ''syntax''), [], example_fs)"
  by (simp add: main_def example_parse_args example_dirname example_get_icons_index
      example_get_template logger_simps)

end
